theory Spec2Isabelle
  imports Main "HOL-Library.Word"
begin

section \<open>Operation status tracking (SmartContractsClient.ts)\<close>

subsection \<open>Data model\<close>

text \<open>
  \<^verbatim>\<open>EOperationStatus\<close>: the lifecycle states an operation is classified into.
\<close>

datatype EOperationStatus =
  NOT_FOUND | AWAITING_INCLUSION | INCLUDED_PENDING | FINAL | INCONSISTENT

text \<open>
  \<^verbatim>\<open>IOperationData\<close>: the fields of one remote operation record that the classification
  reads.
\<close>

record IOperationData =
  is_final :: bool
  in_blocks :: "string list"
  in_pool :: bool

text \<open>
  One call of the collaborator \<^verbatim>\<open>publicApiClient.getOperations([opId])\<close>: the promise
  either rejects with an exception, or resolves to an array of records; a resolved
  value that is \<^verbatim>\<open>null\<close> or \<^verbatim>\<open>undefined\<close> is \<open>None\<close>.
\<close>

datatype 'e getOperations_outcome =
  Rejects 'e
  | Resolves "IOperationData list option"

subsection \<open>getOperationStatus\<close>

text \<open>
  \<^verbatim>\<open>
  const operationData = await this.publicApiClient.getOperations([opId]);
  if (!operationData || operationData.length === 0) return EOperationStatus.NOT_FOUND;
  const opData = operationData[0];
  if (opData.is_final) return EOperationStatus.FINAL;
  if (opData.in_blocks.length > 0) return EOperationStatus.INCLUDED_PENDING;
  if (opData.in_pool) return EOperationStatus.AWAITING_INCLUSION;
  return EOperationStatus.INCONSISTENT;
  \<close>
  An exception of the collaborator is not caught here: it propagates (\<open>Inl\<close>).
\<close>

fun getOperationStatus :: "'e getOperations_outcome \<Rightarrow> 'e + EOperationStatus" where
  "getOperationStatus (Rejects ex) = Inl ex"
| "getOperationStatus (Resolves None) = Inr NOT_FOUND"
| "getOperationStatus (Resolves (Some operationData)) =
     (if length operationData = 0 then Inr NOT_FOUND
      else
        let opData = operationData ! 0 in
        if is_final opData then Inr FINAL
        else if length (in_blocks opData) > 0 then Inr INCLUDED_PENDING
        else if in_pool opData then Inr AWAITING_INCLUSION
        else Inr INCONSISTENT)"

subsection \<open>awaitRequiredOperationStatus\<close>

text \<open>
  The two counters of the polling loop, together with a trace of its effects: how many
  times the remote lookup was attempted and how many times
  \<^verbatim>\<open>wait(TX_POLL_INTERVAL_MS)\<close> was called.
\<close>

record await_state =
  errCounter :: nat
  pendingCounter :: nat
  lookups :: nat
  waits :: nat

text \<open>
  How the loop throws: \<^verbatim>\<open>throw ex\<close> re-raises the exception of the last lookup
  (the spec's \<^verbatim>\<open>ConfirmationLookupFailedError\<close>), \<^verbatim>\<open>throw new Error(msg)\<close> is the
  timeout (the spec's \<^verbatim>\<open>ConfirmationTimeoutError\<close>).
\<close>

datatype 'e await_error =
  ConfirmationLookupFailedError 'e
  | ConfirmationTimeoutError

text \<open>
  The part of the loop body after the \<^verbatim>\<open>try/catch\<close>:
  \<^verbatim>\<open>
  if (status == requiredStatus) return status;
  if (++pendingCounter > 1000) { ...; throw new Error(msg); }
  await wait(TX_POLL_INTERVAL_MS);
  \<close>
  \<open>None\<close> means that the loop goes on to its next iteration.
\<close>

definition compare_status ::
  "EOperationStatus \<Rightarrow> EOperationStatus \<Rightarrow> await_state \<Rightarrow>
   ('e await_error + EOperationStatus) option \<times> await_state" where
  "compare_status requiredStatus status s =
     (if status = requiredStatus then (Some (Inr status), s)
      else
        let s' = s\<lparr>pendingCounter := pendingCounter s + 1\<rparr> in
        if pendingCounter s' > 1000 then (Some (Inl ConfirmationTimeoutError), s')
        else (None, s'\<lparr>waits := waits s' + 1\<rparr>))"

text \<open>
  One iteration of \<^verbatim>\<open>while (true)\<close>. The collaborator is a function from the number
  of the call (0 for the first lookup) to its outcome.
  \<^verbatim>\<open>
  let status = EOperationStatus.NOT_FOUND;
  try { status = await this.getOperationStatus(opId); }
  catch (ex) {
    if (++errCounter > 100) { ...; throw ex; }
    await wait(TX_POLL_INTERVAL_MS);
  }
  \<close>
  After a caught exception the body goes on with \<open>status\<close> still \<open>NOT_FOUND\<close>.
\<close>

definition iteration ::
  "(nat \<Rightarrow> 'e getOperations_outcome) \<Rightarrow> EOperationStatus \<Rightarrow> await_state \<Rightarrow>
   ('e await_error + EOperationStatus) option \<times> await_state" where
  "iteration getOperations requiredStatus s =
     (let s1 = s\<lparr>lookups := lookups s + 1\<rparr> in
      case getOperationStatus (getOperations (lookups s)) of
        Inr status \<Rightarrow> compare_status requiredStatus status s1
      | Inl ex \<Rightarrow>
          let s2 = s1\<lparr>errCounter := errCounter s1 + 1\<rparr> in
          if errCounter s2 > 100 then (Some (Inl (ConfirmationLookupFailedError ex)), s2)
          else compare_status requiredStatus NOT_FOUND (s2\<lparr>waits := waits s2 + 1\<rparr>))"

text \<open>
  The loop. An iteration that does not leave the loop increments \<^verbatim>\<open>pendingCounter\<close>
  and finds it at most 1000, so the loop ends after at most 1001 iterations, whatever
  the node answers.
\<close>

function awaitLoop ::
  "(nat \<Rightarrow> 'e getOperations_outcome) \<Rightarrow> EOperationStatus \<Rightarrow> await_state \<Rightarrow>
   ('e await_error + EOperationStatus) \<times> await_state" where
  "awaitLoop getOperations requiredStatus s =
     (case iteration getOperations requiredStatus s of
        (Some result, s') \<Rightarrow> (result, s')
      | (None, s') \<Rightarrow> awaitLoop getOperations requiredStatus s')"
  by pat_completeness auto
termination
  by (relation "measure (\<lambda>(getOperations, requiredStatus, s). 1001 - pendingCounter s)")
     (auto simp: iteration_def compare_status_def Let_def split: sum.splits if_splits)

text \<open>
  \<^verbatim>\<open>let errCounter = 0; let pendingCounter = 0; while (true) { ... }\<close>
\<close>

definition awaitRequiredOperationStatus ::
  "(nat \<Rightarrow> 'e getOperations_outcome) \<Rightarrow> EOperationStatus \<Rightarrow>
   ('e await_error + EOperationStatus) \<times> await_state" where
  "awaitRequiredOperationStatus getOperations requiredStatus =
     awaitLoop getOperations requiredStatus
       \<lparr>errCounter = 0, pendingCounter = 0, lookups = 0, waits = 0\<rparr>"


section \<open>Wallet (WalletClient.ts)\<close>

subsection \<open>Data model\<close>

type_synonym bytes = "8 word list"

text \<open>
  \<^verbatim>\<open>IAccount\<close>: every field is a string or \<^verbatim>\<open>null\<close>/\<^verbatim>\<open>undefined\<close> (\<open>None\<close>).
\<close>

record IAccount =
  address :: "string option"
  publicKey :: "string option"
  privateKey :: "string option"
  randomEntropy :: "string option"


text \<open>
  The instance fields \<^verbatim>\<open>this.wallet\<close> and \<^verbatim>\<open>this.baseAccount\<close>; the latter is
  \<^verbatim>\<open>undefined\<close> (\<open>None\<close>) until it is assigned.
\<close>

record wallet_state =
  wallet :: "IAccount list"
  baseAccount :: "IAccount option"

text \<open>
  What the wallet methods throw. The source throws \<^verbatim>\<open>new Error(message)\<close>; the
  constructors carry the names of the spec's taxonomy:
  \<^item> \<open>TooManyAccountsError\<close>: "Maximum number of allowed wallet accounts exceeded ...";
  \<^item> \<open>MissingKeyMaterialError\<close>: "Missing account entropy / private key",
    "No private key to sign the message with",
    "No public key to verify the signed message with";
  \<^item> \<open>MismatchError\<close>: "Public key does not correspond the the private key submitted",
    "Account address not correspond the the address submitted";
  \<^item> \<open>InvalidSignatureLengthError\<close>: "Invalid signature length. Expected 64, got ...";
  \<^item> \<open>SignatureVerificationError\<close>: "Signature could not be verified with public key.
    Please inspect";
  \<^item> \<open>DecodeError\<close>: \<^verbatim>\<open>base58Decode\<close> throws on a malformed string;
  \<^item> \<open>CryptoError\<close>: a primitive of the signature library throws;
  \<^item> \<open>TypeError\<close>: the JavaScript runtime, on a method call on \<^verbatim>\<open>null\<close>.
\<close>

datatype error =
  TooManyAccountsError
  | MissingKeyMaterialError
  | MismatchError
  | InvalidSignatureLengthError
  | SignatureVerificationError
  | DecodeError
  | CryptoError
  | TypeError

text \<open>
  The primitives imported from \<^verbatim>\<open>../utils/Xbqcrypto\<close> and \<^verbatim>\<open>@noble/secp256k1\<close> are
  not part of the sources; the wallet functions take them as a parameter. A primitive
  that can throw returns an option (\<open>None\<close>: it throws).
\<close>

record crypto =
  base58Decode :: "string \<Rightarrow> bytes option"
  base58Encode :: "bytes \<Rightarrow> string"
  varintEncode :: "nat \<Rightarrow> bytes"
  hashBlake3 :: "bytes \<Rightarrow> bytes"
  getPublicKey :: "bytes \<Rightarrow> bytes option"
  hashToPrivateKey :: "bytes \<Rightarrow> bytes option"
  signSync :: "bytes \<Rightarrow> bytes \<Rightarrow> bytes option"
  verifySync :: "bytes \<Rightarrow> bytes \<Rightarrow> bytes \<Rightarrow> bool"
  bytesToHex :: "bytes \<Rightarrow> string"

definition VERSION_NUMBER :: nat where
  "VERSION_NUMBER = 0"

definition ADDRESS_PRAEFIX :: string where
  "ADDRESS_PRAEFIX = ''A''"

definition MAX_WALLET_ACCOUNTS :: nat where
  "MAX_WALLET_ACCOUNTS = 256"

subsection \<open>JavaScript helpers\<close>

text \<open>
  A value of type \<^verbatim>\<open>string | null\<close> is truthy when it is a non-empty string.
\<close>

fun truthy :: "string option \<Rightarrow> bool" where
  "truthy None = False"
| "truthy (Some s) = (s \<noteq> [])"

text \<open>
  \<^verbatim>\<open>String.prototype.toLowerCase\<close> on the letters \<^verbatim>\<open>A\<close> to \<^verbatim>\<open>Z\<close>; addresses are
  the prefix \<^verbatim>\<open>A\<close> followed by base-58 text, so they hold no other cased character.
\<close>

definition toLowerCase :: "string \<Rightarrow> string" where
  "toLowerCase s =
     map (\<lambda>ch. let n = (of_char ch :: nat) in
                if 65 \<le> n \<and> n \<le> 90 then char_of (n + 32) else ch) s"

text \<open>
  \<^verbatim>\<open>base58Decode(x)\<close> for an \<open>x\<close> that may be \<^verbatim>\<open>null\<close>: the decoder rejects a
  value that is not a string with a \<^verbatim>\<open>TypeError\<close>.
\<close>

fun decode :: "crypto \<Rightarrow> string option \<Rightarrow> error + bytes" where
  "decode c None = Inl TypeError"
| "decode c (Some s) =
     (case base58Decode c s of None \<Rightarrow> Inl DecodeError | Some b \<Rightarrow> Inr b)"

text \<open>
  \<^verbatim>\<open>
  const version = Buffer.from(varintEncode(VERSION_NUMBER));
  const addressBase58Encoded =
    ADDRESS_PRAEFIX + base58Encode(Buffer.concat([version, hashBlake3(publicKey)]));
  \<close>
  The source repeats these two lines wherever it derives an address.
\<close>

definition addressOfPublicKey :: "crypto \<Rightarrow> bytes \<Rightarrow> string" where
  "addressOfPublicKey c publicKeyBytes =
     (let version = varintEncode c VERSION_NUMBER in
      ADDRESS_PRAEFIX @ base58Encode c (version @ hashBlake3 c publicKeyBytes))"

subsection \<open>Lookup, clean, remove\<close>

text \<open>
  \<^verbatim>\<open>
  return this.wallet.find((w) => w.address.toLowerCase() === address.toLowerCase());
  \<close>
  \<^verbatim>\<open>find\<close> calls the predicate on the members in order and stops at the first match;
  the predicate throws a \<^verbatim>\<open>TypeError\<close> when either address is \<^verbatim>\<open>null\<close>. On an
  empty wallet the predicate is never called.
\<close>

fun getWalletAccountByAddress ::
  "IAccount list \<Rightarrow> string option \<Rightarrow> error + IAccount option" where
  "getWalletAccountByAddress [] addr = Inr None"
| "getWalletAccountByAddress (w # ws) addr =
     (case (address w, addr) of
        (Some a, Some b) \<Rightarrow>
          if toLowerCase a = toLowerCase b then Inr (Some w)
          else getWalletAccountByAddress ws addr
      | _ \<Rightarrow> Inl TypeError)"

text \<open>\<^verbatim>\<open>this.wallet.length = 0;\<close> The base account is not touched.\<close>

definition cleanWallet :: "wallet_state \<Rightarrow> wallet_state" where
  "cleanWallet st = st\<lparr>wallet := []\<rparr>"

text \<open>
  \<^verbatim>\<open>
  const index = this.wallet.findIndex((w) => w.address === address);
  if (index > -1) this.wallet.splice(index, 1);
  \<close>
  The comparison is strict equality, with no case folding.
\<close>

fun removeFirst :: "string \<Rightarrow> IAccount list \<Rightarrow> IAccount list" where
  "removeFirst addr [] = []"
| "removeFirst addr (w # ws) =
     (if address w = Some addr then ws else w # removeFirst addr ws)"

fun removeAddressesFromWallet :: "string list \<Rightarrow> wallet_state \<Rightarrow> wallet_state" where
  "removeAddressesFromWallet [] st = st"
| "removeAddressesFromWallet (addr # addresses) st =
     removeAddressesFromWallet addresses (st\<lparr>wallet := removeFirst addr (wallet st)\<rparr>)"

subsection \<open>addPrivateKeysToWallet\<close>

text \<open>
  The \<^verbatim>\<open>for\<close> loop over the submitted keys. The membership test reads
  \<^verbatim>\<open>this.wallet\<close>, which the loop does not change; the new accounts are collected in
  \<^verbatim>\<open>accountsToCreate\<close>.
  \<^verbatim>\<open>
  for (const privateKey of privateKeys) {
    const privateKeyBase58Decoded = base58Decode(privateKey);
    const publicKey = secp.schnorr.getPublicKey(privateKeyBase58Decoded);
    const publicKeyBase58Encoded = base58Encode(publicKey);
    const version = ...; const addressBase58Encoded = ...;
    if (!this.getWalletAccountByAddress(addressBase58Encoded)) {
      accountsToCreate.push({privateKey: privateKey, publicKey: publicKeyBase58Encoded,
        address: addressBase58Encoded, randomEntropy: null});
    }
  }
  \<close>
\<close>

fun addPrivateKeys_loop ::
  "crypto \<Rightarrow> IAccount list \<Rightarrow> string list \<Rightarrow> IAccount list \<Rightarrow> error + IAccount list" where
  "addPrivateKeys_loop c members [] accountsToCreate = Inr accountsToCreate"
| "addPrivateKeys_loop c members (privateKeyBase58 # privateKeys) accountsToCreate =
     (case base58Decode c privateKeyBase58 of
        None \<Rightarrow> Inl DecodeError
      | Some privateKeyBase58Decoded \<Rightarrow>
          (case getPublicKey c privateKeyBase58Decoded of
             None \<Rightarrow> Inl CryptoError
           | Some publicKeyBytes \<Rightarrow>
               let publicKeyBase58Encoded = base58Encode c publicKeyBytes;
                   addressBase58Encoded = addressOfPublicKey c publicKeyBytes
               in
                 (case getWalletAccountByAddress members (Some addressBase58Encoded) of
                    Inl e \<Rightarrow> Inl e
                  | Inr (Some found) \<Rightarrow>
                      addPrivateKeys_loop c members privateKeys accountsToCreate
                  | Inr None \<Rightarrow>
                      addPrivateKeys_loop c members privateKeys
                        (accountsToCreate @
                         [\<lparr>address = Some addressBase58Encoded,
                           publicKey = Some publicKeyBase58Encoded,
                           privateKey = Some privateKeyBase58,
                           randomEntropy = None\<rparr>]))))"

text \<open>
  \<^verbatim>\<open>
  if (privateKeys.length > MAX_WALLET_ACCOUNTS) throw new Error(...);
  const accountsToCreate = new Array<IAccount>();
  for (...) { ... }
  this.wallet.push(...accountsToCreate);
  return accountsToCreate;
  \<close>
  The result is what the call returns or throws, together with the state it leaves.
\<close>

definition addPrivateKeysToWallet ::
  "crypto \<Rightarrow> string list \<Rightarrow> wallet_state \<Rightarrow> (error + IAccount list) \<times> wallet_state" where
  "addPrivateKeysToWallet c privateKeys st =
     (if length privateKeys > MAX_WALLET_ACCOUNTS then (Inl TooManyAccountsError, st)
      else
        (case addPrivateKeys_loop c (wallet st) privateKeys [] of
           Inl e \<Rightarrow> (Inl e, st)
         | Inr accountsToCreate \<Rightarrow>
             (Inr accountsToCreate, st\<lparr>wallet := wallet st @ accountsToCreate\<rparr>)))"

subsection \<open>addAccountsToWallet\<close>

text \<open>
  The private key an entry resolves to:
  \<^verbatim>\<open>
  let privateKeyBase58Encoded: string = null;
  // account is specified via entropy
  if (account.randomEntropy) {
    const base58DecodedRandomEntropy = base58Decode(account.randomEntropy);
    const privateKey = secp.utils.hashToPrivateKey(base58DecodedRandomEntropy);
    privateKeyBase58Encoded = base58Encode(privateKey);
  }
  // if not entropy defined, use the base58 encoded value defined as param
  privateKeyBase58Encoded = privateKeyBase58Encoded || account.privateKey;
  \<close>
\<close>

definition resolvePrivateKey :: "crypto \<Rightarrow> IAccount \<Rightarrow> error + string option" where
  "resolvePrivateKey c account =
     (if truthy (randomEntropy account) then
        (case decode c (randomEntropy account) of
           Inl e \<Rightarrow> Inl e
         | Inr base58DecodedRandomEntropy \<Rightarrow>
             (case hashToPrivateKey c base58DecodedRandomEntropy of
                None \<Rightarrow> Inl CryptoError
              | Some privateKeyBytes \<Rightarrow>
                  let privateKeyBase58Encoded = Some (base58Encode c privateKeyBytes) in
                  Inr (if truthy privateKeyBase58Encoded then privateKeyBase58Encoded
                       else privateKey account)))
      else Inr (privateKey account))"

text \<open>
  The body of the \<^verbatim>\<open>for\<close> loop up to the membership test: the checks on one entry,
  and the account it would create.
  \<^verbatim>\<open>
  if (!account.randomEntropy && !account.privateKey)
    throw new Error("Missing account entropy / private key");
  ... (the private key, as above)
  const publicKey = secp.schnorr.getPublicKey(base58Decode(privateKeyBase58Encoded));
  const publicKeyBase58Encoded = base58Encode(publicKey);
  if (account.publicKey && account.publicKey !== publicKeyBase58Encoded)
    throw new Error("Public key does not correspond the the private key submitted");
  const version = ...; const addressBase58Encoded = ...;
  if (account.address && account.address !== addressBase58Encoded)
    throw new Error("Account address not correspond the the address submitted");
  \<close>
\<close>

definition deriveAccount :: "crypto \<Rightarrow> IAccount \<Rightarrow> error + IAccount" where
  "deriveAccount c account =
     (if \<not> truthy (randomEntropy account) \<and> \<not> truthy (privateKey account)
      then Inl MissingKeyMaterialError
      else
        (case resolvePrivateKey c account of
           Inl e \<Rightarrow> Inl e
         | Inr privateKeyBase58Encoded \<Rightarrow>
             (case decode c privateKeyBase58Encoded of
                Inl e \<Rightarrow> Inl e
              | Inr privateKeyBytes \<Rightarrow>
                  (case getPublicKey c privateKeyBytes of
                     None \<Rightarrow> Inl CryptoError
                   | Some publicKeyBytes \<Rightarrow>
                       let publicKeyBase58Encoded = base58Encode c publicKeyBytes in
                       if truthy (publicKey account) \<and>
                          publicKey account \<noteq> Some publicKeyBase58Encoded
                       then Inl MismatchError
                       else
                         let addressBase58Encoded = addressOfPublicKey c publicKeyBytes in
                         if truthy (address account) \<and>
                            address account \<noteq> Some addressBase58Encoded
                         then Inl MismatchError
                         else
                           Inr \<lparr>address = Some addressBase58Encoded,
                                publicKey = Some publicKeyBase58Encoded,
                                privateKey = privateKeyBase58Encoded,
                                randomEntropy = randomEntropy account\<rparr>))))"

text \<open>
  The loop itself: each entry is checked, then
  \<^verbatim>\<open>
  if (!this.getWalletAccountByAddress(addressBase58Encoded)) accountsAdded.push({...});
  \<close>
  again against \<^verbatim>\<open>this.wallet\<close>, which the loop does not change.
\<close>

fun addAccounts_loop ::
  "crypto \<Rightarrow> IAccount list \<Rightarrow> IAccount list \<Rightarrow> IAccount list \<Rightarrow> error + IAccount list" where
  "addAccounts_loop c members [] accountsAdded = Inr accountsAdded"
| "addAccounts_loop c members (account # accounts) accountsAdded =
     (case deriveAccount c account of
        Inl e \<Rightarrow> Inl e
      | Inr created \<Rightarrow>
          (case getWalletAccountByAddress members (address created) of
             Inl e \<Rightarrow> Inl e
           | Inr (Some found) \<Rightarrow> addAccounts_loop c members accounts accountsAdded
           | Inr None \<Rightarrow> addAccounts_loop c members accounts (accountsAdded @ [created])))"

text \<open>
  \<^verbatim>\<open>
  if (accounts.length > MAX_WALLET_ACCOUNTS) throw new Error(...);
  const accountsAdded: Array<IAccount> = [];
  for (...) { ... }
  this.wallet.push(...accountsAdded);
  return accountsAdded;
  \<close>
\<close>

definition addAccountsToWallet ::
  "crypto \<Rightarrow> IAccount list \<Rightarrow> wallet_state \<Rightarrow> (error + IAccount list) \<times> wallet_state" where
  "addAccountsToWallet c accounts st =
     (if length accounts > MAX_WALLET_ACCOUNTS then (Inl TooManyAccountsError, st)
      else
        (case addAccounts_loop c (wallet st) accounts [] of
           Inl e \<Rightarrow> (Inl e, st)
         | Inr accountsAdded \<Rightarrow>
             (Inr accountsAdded, st\<lparr>wallet := wallet st @ accountsAdded\<rparr>)))"

subsection \<open>setBaseAccount\<close>

text \<open>
  \<^verbatim>\<open>
  let baseAccountAdded: Array<IAccount> = null;
  if (!this.getWalletAccountByAddress(baseAccount.address)) {
    baseAccountAdded = this.addAccountsToWallet([baseAccount]);
    this.baseAccount = baseAccountAdded[0];
  } else {
    this.baseAccount = baseAccount;
  }
  \<close>
  \<^verbatim>\<open>baseAccountAdded[0]\<close> of an empty array is \<^verbatim>\<open>undefined\<close>.
\<close>

definition setBaseAccount ::
  "crypto \<Rightarrow> IAccount \<Rightarrow> wallet_state \<Rightarrow> (error + unit) \<times> wallet_state" where
  "setBaseAccount c account st =
     (case getWalletAccountByAddress (wallet st) (address account) of
        Inl e \<Rightarrow> (Inl e, st)
      | Inr None \<Rightarrow>
          (case addAccountsToWallet c [account] st of
             (Inl e, st') \<Rightarrow> (Inl e, st')
           | (Inr baseAccountAdded, st') \<Rightarrow>
               (Inr (),
                st'\<lparr>baseAccount :=
                      (case baseAccountAdded of [] \<Rightarrow> None | added # others \<Rightarrow> Some added)\<rparr>))
      | Inr (Some found) \<Rightarrow> (Inr (), st\<lparr>baseAccount := Some account\<rparr>))"

subsection \<open>walletSignMessage\<close>




section \<open>Notions used in the statements\<close>

subsection \<open>Runs of the polling loop\<close>

fun rejects :: "'e getOperations_outcome \<Rightarrow> bool" where
  "rejects (Rejects ex) = True"
| "rejects (Resolves operationData) = False"

text \<open>
  The value of the local variable \<^verbatim>\<open>status\<close> when an iteration reaches the comparison
  with the required status: the classified status, or the initial \<open>NOT_FOUND\<close> when the
  lookup threw.
\<close>

definition status_of :: "'e getOperations_outcome \<Rightarrow> EOperationStatus" where
  "status_of outcome =
     (case getOperationStatus outcome of Inl ex \<Rightarrow> NOT_FOUND | Inr status \<Rightarrow> status)"

text \<open>How many of the first \<open>n\<close> lookups throw, wherever they stand.\<close>

primrec failures :: "(nat \<Rightarrow> 'e getOperations_outcome) \<Rightarrow> nat \<Rightarrow> nat" where
  "failures getOperations 0 = 0"
| "failures getOperations (Suc n) =
     (if rejects (getOperations n) then failures getOperations n + 1
      else failures getOperations n)"

text \<open>
  The spec's reading of the error budget: the length of the run of failed lookups that
  ends with lookup \<open>n - 1\<close>; a successful lookup resets it.
\<close>

primrec consecutive_failures :: "(nat \<Rightarrow> 'e getOperations_outcome) \<Rightarrow> nat \<Rightarrow> nat" where
  "consecutive_failures getOperations 0 = 0"
| "consecutive_failures getOperations (Suc n) =
     (if rejects (getOperations n) then consecutive_failures getOperations n + 1 else 0)"

text \<open>
  The spec's reading of the pending budget: how many of the first \<open>n\<close> lookups succeed
  with a status other than the required one.
\<close>

primrec pending_polls ::
  "(nat \<Rightarrow> 'e getOperations_outcome) \<Rightarrow> EOperationStatus \<Rightarrow> nat \<Rightarrow> nat" where
  "pending_polls getOperations requiredStatus 0 = 0"
| "pending_polls getOperations requiredStatus (Suc n) =
     (case getOperationStatus (getOperations n) of
        Inl ex \<Rightarrow> pending_polls getOperations requiredStatus n
      | Inr status \<Rightarrow>
          if status \<noteq> requiredStatus then pending_polls getOperations requiredStatus n + 1
          else pending_polls getOperations requiredStatus n)"

text \<open>
  The state of the loop at the start of iteration \<open>n\<close>, when no earlier iteration has
  left it.
\<close>

definition state_after :: "(nat \<Rightarrow> 'e getOperations_outcome) \<Rightarrow> nat \<Rightarrow> await_state" where
  "state_after getOperations n =
     \<lparr>errCounter = failures getOperations n, pendingCounter = n, lookups = n,
      waits = n + failures getOperations n\<rparr>"

subsection \<open>Sequences of wallet calls\<close>

datatype wallet_call =
  SetBaseAccount IAccount
  | AddPrivateKeysToWallet "string list"
  | AddAccountsToWallet "IAccount list"
  | RemoveAddressesFromWallet "string list"
  | CleanWallet

text \<open>The state a call leaves, whether it returns or throws.\<close>

fun call :: "crypto \<Rightarrow> wallet_call \<Rightarrow> wallet_state \<Rightarrow> wallet_state" where
  "call c (SetBaseAccount account) st = snd (setBaseAccount c account st)"
| "call c (AddPrivateKeysToWallet privateKeys) st = snd (addPrivateKeysToWallet c privateKeys st)"
| "call c (AddAccountsToWallet accounts) st = snd (addAccountsToWallet c accounts st)"
| "call c (RemoveAddressesFromWallet addresses) st = removeAddressesFromWallet addresses st"
| "call c CleanWallet st = cleanWallet st"

fun calls :: "crypto \<Rightarrow> wallet_call list \<Rightarrow> wallet_state \<Rightarrow> wallet_state" where
  "calls c [] st = st"
| "calls c (x # xs) st = calls c xs (call c x st)"

fun removes :: "wallet_call \<Rightarrow> bool" where
  "removes (RemoveAddressesFromWallet addresses) = True"
| "removes CleanWallet = True"
| "removes x = False"

text \<open>The wallet of a client constructed without a base account.\<close>

definition new_wallet :: wallet_state where
  "new_wallet = \<lparr>wallet = [], baseAccount = None\<rparr>"

text \<open>Two accounts have the same address under the comparison of the lookup.\<close>

definition same_address :: "IAccount \<Rightarrow> IAccount \<Rightarrow> bool" where
  "same_address a b =
     (case (address a, address b) of
        (Some x, Some y) \<Rightarrow> toLowerCase x = toLowerCase y
      | _ \<Rightarrow> False)"

definition base_has_member :: "wallet_state \<Rightarrow> bool" where
  "base_has_member st =
     (case baseAccount st of
        None \<Rightarrow> True
      | Some base \<Rightarrow> list_ex (\<lambda>member. same_address member base) (wallet st))"

subsection \<open>Entries of a batch and the accounts created for them\<close>

text \<open>
  The entries of a batch for which \<^verbatim>\<open>addAccountsToWallet\<close> creates an account: those
  that pass the checks and whose derived address the lookup does not find in the wallet
  as it was before the call.
\<close>

definition entries_added :: "crypto \<Rightarrow> IAccount list \<Rightarrow> IAccount list \<Rightarrow> IAccount list" where
  "entries_added c members accounts =
     filter
       (\<lambda>entry. case deriveAccount c entry of
                   Inl e \<Rightarrow> False
                 | Inr created \<Rightarrow>
                     getWalletAccountByAddress members (address created) = Inr None)
       accounts"

text \<open>
  The key material of a created account, read off the primitives alone. Its private key
  is the one supplied by the entry when the entry has no random entropy; when the entry
  has a random entropy, it is the encoding of the key derived from the entropy (and the
  supplied one only if that encoding is the empty string). Its public key and address are
  derived from its private key, and it keeps the entry's random entropy.
\<close>

definition stores_resolved_key :: "crypto \<Rightarrow> IAccount \<Rightarrow> IAccount \<Rightarrow> bool" where
  "stores_resolved_key c entry created \<longleftrightarrow>
     (if truthy (randomEntropy entry) then
        (case decode c (randomEntropy entry) of
           Inl e \<Rightarrow> False
         | Inr entropyBytes \<Rightarrow>
             (case hashToPrivateKey c entropyBytes of
                None \<Rightarrow> False
              | Some privateKeyBytes \<Rightarrow>
                  privateKey created =
                    (if base58Encode c privateKeyBytes \<noteq> []
                     then Some (base58Encode c privateKeyBytes)
                     else privateKey entry)))
      else privateKey created = privateKey entry) \<and>
     (case decode c (privateKey created) of
        Inl e \<Rightarrow> False
      | Inr keyBytes \<Rightarrow>
          (case getPublicKey c keyBytes of
             None \<Rightarrow> False
           | Some publicKeyBytes \<Rightarrow>
               publicKey created = Some (base58Encode c publicKeyBytes) \<and>
               address created = Some (addressOfPublicKey c publicKeyBytes))) \<and>
     randomEntropy created = randomEntropy entry"

subsection \<open>Accounts that can sign\<close>



section \<open>Concrete inputs\<close>

subsection \<open>Nodes\<close>

definition in_pool_record :: IOperationData where
  "in_pool_record = \<lparr>is_final = False, in_blocks = [], in_pool = True\<rparr>"

text \<open>A node whose every lookup times out.\<close>

definition failing_node :: "nat \<Rightarrow> string getOperations_outcome" where
  "failing_node i = Rejects ''timeout''"

text \<open>A node that answers every other lookup, the operation waiting in its pool.\<close>

definition alternating_node :: "nat \<Rightarrow> string getOperations_outcome" where
  "alternating_node i =
     (if even i then Rejects ''timeout'' else Resolves (Some [in_pool_record]))"

text \<open>A node that answers every lookup, the operation waiting in its pool.\<close>

definition pool_node :: "nat \<Rightarrow> string getOperations_outcome" where
  "pool_node i = Resolves (Some [in_pool_record])"

text \<open>The same node, its first lookup timing out.\<close>

definition hiccup_node :: "nat \<Rightarrow> string getOperations_outcome" where
  "hiccup_node i = (if i = 0 then Rejects ''timeout'' else pool_node i)"

text \<open>The same node, its third lookup timing out.\<close>

definition late_hiccup_node :: "nat \<Rightarrow> string getOperations_outcome" where
  "late_hiccup_node i = (if i = 2 then Rejects ''timeout'' else pool_node i)"

subsection \<open>Primitives\<close>

text \<open>
  Stand-ins for the primitives, small enough to evaluate: the decoder accepts the
  non-empty strings over the base-58 alphabet and reads their character codes, the public
  key of a private key is the key written twice, a signature is the public key followed by
  the digest, padded to 64 bytes, and verification recomputes it from the public key.
\<close>

definition base58_alphabet :: string where
  "base58_alphabet = ''123456789ABCDEFGHJKLMNPQRSTUVWXYZabcdefghijkmnopqrstuvwxyz''"

definition toy_crypto :: crypto where
  "toy_crypto =
     \<lparr>base58Decode =
        (\<lambda>s. if s \<noteq> [] \<and> set s \<subseteq> set base58_alphabet
             then Some (map (\<lambda>ch. of_nat (of_char ch)) s) else None),
      base58Encode = map (\<lambda>b. char_of (unat b)),
      varintEncode = (\<lambda>n. [of_nat n + 49]),
      hashBlake3 = rev,
      getPublicKey = (\<lambda>k. Some (k @ k)),
      hashToPrivateKey = (\<lambda>e. Some (rev e)),
      signSync = (\<lambda>digest k. Some (take 64 (k @ k @ digest @ replicate 64 0))),
      verifySync = (\<lambda>sig digest p. sig = take 64 (p @ digest @ replicate 64 0)),
      bytesToHex =
        (\<lambda>b. concat (map (\<lambda>x. [''0123456789abcdef'' ! (unat x div 16),
                                 ''0123456789abcdef'' ! (unat x mod 16)]) b))\<rparr>"

section \<open>The polling loop, iteration by iteration\<close>

lemma rejects_iff: "rejects outcome \<longleftrightarrow> (\<exists>ex. getOperationStatus outcome = Inl ex)"
  by (cases outcome rule: getOperationStatus.cases) (auto simp: Let_def)

lemma failures_mono: "m \<le> n \<Longrightarrow> failures g m \<le> failures g n"
  by (induction n) (auto simp: le_Suc_eq)

lemma await_start: "awaitRequiredOperationStatus g req = awaitLoop g req (state_after g 0)"
  by (simp add: awaitRequiredOperationStatus_def state_after_def)

text \<open>An iteration that neither finds the required status nor exhausts a budget.\<close>

lemma iteration_step:
  assumes "n < 1000" and "failures g (Suc n) \<le> 100" and "status_of (g n) \<noteq> req"
  shows "iteration g req (state_after g n) = (None, state_after g (Suc n))"
proof (cases "getOperationStatus (g n)")
  case (Inl ex)
  then have "rejects (g n)" by (auto simp: rejects_iff)
  with Inl assms show ?thesis
    by (simp add: iteration_def compare_status_def state_after_def status_of_def Let_def)
next
  case (Inr status)
  then have "\<not> rejects (g n)" by (auto simp: rejects_iff)
  with Inr assms show ?thesis
    by (simp add: iteration_def compare_status_def state_after_def status_of_def Let_def)
qed

lemma run_prefix:
  "n \<le> 1000 \<Longrightarrow> failures g n \<le> 100 \<Longrightarrow> \<forall>j<n. status_of (g j) \<noteq> req \<Longrightarrow>
   awaitLoop g req (state_after g 0) = awaitLoop g req (state_after g n)"
proof (induction n)
  case 0
  show ?case by simp
next
  case (Suc n)
  have "failures g n \<le> failures g (Suc n)" by simp
  with Suc.prems have pre: "awaitLoop g req (state_after g 0) = awaitLoop g req (state_after g n)"
    using Suc.IH by (meson Suc_leD le_trans less_Suc_eq)
  have "iteration g req (state_after g n) = (None, state_after g (Suc n))"
    using Suc.prems by (intro iteration_step) auto
  then have "awaitLoop g req (state_after g n) = awaitLoop g req (state_after g (Suc n))"
    by (subst awaitLoop.simps) simp
  with pre show ?case by simp
qed

text \<open>The three ways a run ends.\<close>

lemma run_lookup_failed:
  assumes "n \<le> 1000" and "failures g n = 100" and "\<forall>j<n. status_of (g j) \<noteq> req"
    and "g n = Rejects ex"
  shows "awaitRequiredOperationStatus g req =
         (Inl (ConfirmationLookupFailedError ex),
          \<lparr>errCounter = 101, pendingCounter = n, lookups = n + 1, waits = n + 100\<rparr>)"
proof -
  have "iteration g req (state_after g n) =
        (Some (Inl (ConfirmationLookupFailedError ex)),
          \<lparr>errCounter = 101, pendingCounter = n, lookups = n + 1, waits = n + 100\<rparr>)"
    using assms by (simp add: iteration_def state_after_def Let_def)
  then have "awaitLoop g req (state_after g n) =
        (Inl (ConfirmationLookupFailedError ex),
          \<lparr>errCounter = 101, pendingCounter = n, lookups = n + 1, waits = n + 100\<rparr>)"
    by (subst awaitLoop.simps) simp
  with run_prefix [of n g req] assms show ?thesis
    by (simp add: await_start)
qed

lemma run_timeout:
  assumes "failures g 1001 \<le> 100" and "\<forall>j<1001. status_of (g j) \<noteq> req"
  shows "awaitRequiredOperationStatus g req =
         (Inl ConfirmationTimeoutError,
          \<lparr>errCounter = failures g 1001, pendingCounter = 1001, lookups = 1001,
           waits = 1000 + failures g 1001\<rparr>)"
proof -
  have f: "failures g 1000 \<le> failures g 1001" by (rule failures_mono) simp
  have e: "failures g 1001 = (if rejects (g 1000) then failures g 1000 + 1 else failures g 1000)"
    using failures.simps(2) [of g 1000] by simp
  have s: "status_of (g 1000) \<noteq> req" using assms by simp
  have "iteration g req (state_after g 1000) =
        (Some (Inl ConfirmationTimeoutError),
          \<lparr>errCounter = failures g 1001, pendingCounter = 1001, lookups = 1001,
           waits = 1000 + failures g 1001\<rparr>)"
  proof (cases "getOperationStatus (g 1000)")
    case (Inl ex)
    then have "rejects (g 1000)" by (auto simp: rejects_iff)
    with Inl assms(1) s e show ?thesis
      by (simp add: iteration_def compare_status_def state_after_def status_of_def Let_def)
  next
    case (Inr status)
    then have "\<not> rejects (g 1000)" by (auto simp: rejects_iff)
    with Inr assms(1) s e show ?thesis
      by (simp add: iteration_def compare_status_def state_after_def status_of_def Let_def)
  qed
  then have "awaitLoop g req (state_after g 1000) =
        (Inl ConfirmationTimeoutError,
          \<lparr>errCounter = failures g 1001, pendingCounter = 1001, lookups = 1001,
           waits = 1000 + failures g 1001\<rparr>)"
    by (subst awaitLoop.simps) simp
  moreover have "awaitLoop g req (state_after g 0) = awaitLoop g req (state_after g 1000)"
    using assms f by (intro run_prefix) auto
  ultimately show ?thesis by (simp add: await_start)
qed

lemma run_returns:
  assumes "n \<le> 1000" and "failures g (Suc n) \<le> 100" and "\<forall>j<n. status_of (g j) \<noteq> req"
    and "status_of (g n) = req"
  shows "awaitRequiredOperationStatus g req =
         (Inr req,
          \<lparr>errCounter = failures g (Suc n), pendingCounter = n, lookups = n + 1,
           waits = n + failures g (Suc n)\<rparr>)"
proof -
  have "iteration g req (state_after g n) =
        (Some (Inr req),
          \<lparr>errCounter = failures g (Suc n), pendingCounter = n, lookups = n + 1,
           waits = n + failures g (Suc n)\<rparr>)"
  proof (cases "getOperationStatus (g n)")
    case (Inl ex)
    then have "rejects (g n)" by (auto simp: rejects_iff)
    with Inl assms show ?thesis
      by (simp add: iteration_def compare_status_def state_after_def status_of_def Let_def)
  next
    case (Inr status)
    then have "\<not> rejects (g n)" by (auto simp: rejects_iff)
    with Inr assms show ?thesis
      by (simp add: iteration_def compare_status_def state_after_def status_of_def Let_def)
  qed
  then have "awaitLoop g req (state_after g n) =
        (Inr req,
          \<lparr>errCounter = failures g (Suc n), pendingCounter = n, lookups = n + 1,
           waits = n + failures g (Suc n)\<rparr>)"
    by (subst awaitLoop.simps) simp
  moreover have "failures g n \<le> 100" using assms(2) by (simp split: if_splits)
  ultimately show ?thesis using run_prefix [of n g req] assms by (simp add: await_start)
qed

text \<open>
  The error counter of any run is the number of failed lookups so far, and the run ends
  with the error of a lookup exactly when that lookup takes the counter to 101.
\<close>

lemma iteration_counts:
  assumes "errCounter s = failures g (lookups s)" and "errCounter s \<le> 100"
    and "iteration g req s = (r, s')"
  shows "errCounter s' = failures g (lookups s') \<and> lookups s' = lookups s + 1 \<and>
         (r = None \<longrightarrow> errCounter s' \<le> 100) \<and>
         (r = Some (Inl (ConfirmationLookupFailedError ex)) \<longleftrightarrow>
            errCounter s' = 101 \<and> g (lookups s) = Rejects ex)"
proof (cases "g (lookups s)")
  case (Rejects ex')
  with assms show ?thesis
    by (auto simp: iteration_def compare_status_def Let_def split: if_splits)
next
  case (Resolves operationData)
  then have "\<not> rejects (g (lookups s))" by simp
  then obtain status where "getOperationStatus (g (lookups s)) = Inr status"
    by (cases "getOperationStatus (g (lookups s))") (auto simp: rejects_iff)
  with Resolves assms show ?thesis
    by (auto simp: iteration_def compare_status_def Let_def split: if_splits)
qed

lemma awaitLoop_counts:
  "errCounter s = failures g (lookups s) \<Longrightarrow> errCounter s \<le> 100 \<Longrightarrow>
   awaitLoop g req s = (res, sf) \<Longrightarrow>
   errCounter sf = failures g (lookups sf) \<and>
   (res = Inl (ConfirmationLookupFailedError ex) \<longleftrightarrow>
      errCounter sf = 101 \<and> g (lookups sf - 1) = Rejects ex)"
proof (induction g req s rule: awaitLoop.induct)
  case (1 g req s)
  obtain r s' where it: "iteration g req s = (r, s')"
    by (cases "iteration g req s")
  note c = iteration_counts [OF "1.prems"(1,2) it, of ex]
  show ?case
  proof (cases r)
    case None
    with it "1.prems"(3) have "awaitLoop g req s' = (res, sf)"
      by (subst (asm) awaitLoop.simps) simp
    moreover from c None have "errCounter s' = failures g (lookups s')" and "errCounter s' \<le> 100"
      by blast+
    ultimately show ?thesis
      using "1.IH" [OF it [symmetric] None] by blast
  next
    case (Some result)
    with it "1.prems"(3) have "res = result" and "sf = s'"
      by (subst (asm) awaitLoop.simps, simp)+
    with c Some show ?thesis by auto
  qed
qed

lemma no_failure_before:
  "\<forall>j<n. status_of (getOperations j) \<noteq> NOT_FOUND \<Longrightarrow> failures getOperations n = 0"
proof (induction n)
  case 0
  show ?case by simp
next
  case (Suc n)
  then have "status_of (getOperations n) \<noteq> NOT_FOUND" by simp
  then have "\<not> rejects (getOperations n)"
    by (auto simp: rejects_iff status_of_def)
  with Suc show ?case by simp
qed

subsection \<open>The concrete nodes\<close>

lemma status_of_simps:
  "status_of (Rejects ex) = NOT_FOUND"
  "status_of (Resolves (Some [in_pool_record])) = AWAITING_INCLUSION"
  by (simp_all add: status_of_def in_pool_record_def)

lemma failures_failing: "failures failing_node n = n"
  by (induction n) (simp_all add: failing_node_def)

lemma failures_alternating: "failures alternating_node (2 * k) = k"
  by (induction k) (simp_all add: alternating_node_def)

lemma consecutive_alternating: "consecutive_failures alternating_node (Suc (2 * k)) = 1"
  by (cases k) (simp_all add: alternating_node_def)

lemma failures_pool: "failures pool_node n = 0"
  by (induction n) (simp_all add: pool_node_def)

lemma failures_hiccup: "failures hiccup_node (Suc n) = 1"
  by (induction n) (simp_all add: hiccup_node_def pool_node_def)

lemma pending_polls_hiccup: "pending_polls hiccup_node FINAL (Suc n) = n"
  by (induction n) (simp_all add: hiccup_node_def pool_node_def in_pool_record_def)

section \<open>Claims about the operation status tracker\<close>

text \<open>
  Claim C1. \<^verbatim>\<open>getOperationStatus\<close> classifies what the lookup resolves to in strict
  priority order: a missing or empty record list gives \<open>NOT_FOUND\<close>; otherwise the
  first record decides: final gives \<open>FINAL\<close>; else at least one containing block gives
  \<open>INCLUDED_PENDING\<close>; else present in the pool gives \<open>AWAITING_INCLUSION\<close>; else
  \<open>INCONSISTENT\<close>.
\<close>

theorem getOperationStatus_priority:
  "(operationData = None \<or> operationData = Some [] \<longrightarrow>
      getOperationStatus (Resolves operationData) = Inr NOT_FOUND) \<and>
   (operationData = Some (opData # others) \<longrightarrow>
      (is_final opData \<longrightarrow>
         getOperationStatus (Resolves operationData) = Inr FINAL) \<and>
      (\<not> is_final opData \<and> in_blocks opData \<noteq> [] \<longrightarrow>
         getOperationStatus (Resolves operationData) = Inr INCLUDED_PENDING) \<and>
      (\<not> is_final opData \<and> in_blocks opData = [] \<and> in_pool opData \<longrightarrow>
         getOperationStatus (Resolves operationData) = Inr AWAITING_INCLUSION) \<and>
      (\<not> is_final opData \<and> in_blocks opData = [] \<and> \<not> in_pool opData \<longrightarrow>
         getOperationStatus (Resolves operationData) = Inr INCONSISTENT))"
  by (auto simp: Let_def)

text \<open>
  The theorem at the records of the spec's examples, and at a final record that is also
  in a block and in the pool.
\<close>

theorem getOperationStatus_priority_witness:
  "getOperationStatus (Resolves None) = Inr NOT_FOUND \<and>
   getOperationStatus (Resolves (Some [])) = Inr NOT_FOUND \<and>
   getOperationStatus
     (Resolves (Some [\<lparr>is_final = True, in_blocks = [''b1''], in_pool = True\<rparr>])) = Inr FINAL \<and>
   getOperationStatus
     (Resolves (Some [\<lparr>is_final = False, in_blocks = [''b1''], in_pool = True\<rparr>])) =
     Inr INCLUDED_PENDING \<and>
   getOperationStatus
     (Resolves (Some [\<lparr>is_final = False, in_blocks = [], in_pool = True\<rparr>])) =
     Inr AWAITING_INCLUSION \<and>
   getOperationStatus
     (Resolves (Some [\<lparr>is_final = False, in_blocks = [], in_pool = False\<rparr>])) =
     Inr INCONSISTENT"
  using
    getOperationStatus_priority [of None]
    getOperationStatus_priority [of "Some []"]
    getOperationStatus_priority
      [of "Some [\<lparr>is_final = True, in_blocks = [''b1''], in_pool = True\<rparr>]"
          "\<lparr>is_final = True, in_blocks = [''b1''], in_pool = True\<rparr>" "[]"]
    getOperationStatus_priority
      [of "Some [\<lparr>is_final = False, in_blocks = [''b1''], in_pool = True\<rparr>]"
          "\<lparr>is_final = False, in_blocks = [''b1''], in_pool = True\<rparr>" "[]"]
    getOperationStatus_priority
      [of "Some [\<lparr>is_final = False, in_blocks = [], in_pool = True\<rparr>]"
          "\<lparr>is_final = False, in_blocks = [], in_pool = True\<rparr>" "[]"]
    getOperationStatus_priority
      [of "Some [\<lparr>is_final = False, in_blocks = [], in_pool = False\<rparr>]"
          "\<lparr>is_final = False, in_blocks = [], in_pool = False\<rparr>" "[]"]
  by simp

text \<open>
  Claim C2, as stated, fails: the error counter is never reset. Against a node that
  fails every other lookup, the run is aborted with the error of lookup 200, the 101st
  failure, although no two failures are consecutive.
\<close>

theorem consecutive_failures_counterexample:
  "awaitRequiredOperationStatus alternating_node FINAL =
     (Inl (ConfirmationLookupFailedError ''timeout''),
      \<lparr>errCounter = 101, pendingCounter = 200, lookups = 201, waits = 300\<rparr>) \<and>
   consecutive_failures alternating_node 201 = 1"
proof -
  have "failures alternating_node 200 = 100"
    using failures_alternating [of 100] by simp
  moreover have "\<forall>j<200. status_of (alternating_node j) \<noteq> FINAL"
    by (simp add: alternating_node_def status_of_simps)
  moreover have "alternating_node 200 = Rejects ''timeout''"
    by (simp add: alternating_node_def)
  ultimately have "awaitRequiredOperationStatus alternating_node FINAL =
     (Inl (ConfirmationLookupFailedError ''timeout''),
      \<lparr>errCounter = 101, pendingCounter = 200, lookups = 200 + 1, waits = 200 + 100\<rparr>)"
    by (intro run_lookup_failed) simp_all
  moreover have "consecutive_failures alternating_node 201 = 1"
    using consecutive_alternating [of 100] by simp
  ultimately show ?thesis by simp
qed

text \<open>
  Claim C2, amended. Every failed lookup of a run counts toward the error budget,
  consecutive or not: the error counter is the number of failed lookups so far. The
  101st failed lookup aborts the run with its error (lookup \<open>n\<close> fails, 100 of the
  lookups before it failed, and no iteration before it found the required status), and
  it is the last lookup of the run. A run ends with the error of a lookup only in this
  way.
\<close>

theorem lookup_failures_are_never_reset:
  "(n \<le> 1000 \<and> failures getOperations n = 100 \<and>
    (\<forall>j<n. status_of (getOperations j) \<noteq> requiredStatus) \<and>
    getOperations n = Rejects ex \<longrightarrow>
      awaitRequiredOperationStatus getOperations requiredStatus =
        (Inl (ConfirmationLookupFailedError ex),
         \<lparr>errCounter = 101, pendingCounter = n, lookups = n + 1, waits = n + 100\<rparr>)) \<and>
   errCounter (snd (awaitRequiredOperationStatus getOperations requiredStatus)) =
     failures getOperations
       (lookups (snd (awaitRequiredOperationStatus getOperations requiredStatus))) \<and>
   (fst (awaitRequiredOperationStatus getOperations requiredStatus) =
      Inl (ConfirmationLookupFailedError ex') \<longleftrightarrow>
    errCounter (snd (awaitRequiredOperationStatus getOperations requiredStatus)) = 101 \<and>
    getOperations
      (lookups (snd (awaitRequiredOperationStatus getOperations requiredStatus)) - 1) =
      Rejects ex')"
proof -
  obtain res sf where r: "awaitRequiredOperationStatus getOperations requiredStatus = (res, sf)"
    by (cases "awaitRequiredOperationStatus getOperations requiredStatus")
  then have "awaitLoop getOperations requiredStatus (state_after getOperations 0) = (res, sf)"
    by (simp add: await_start)
  from awaitLoop_counts [OF _ _ this, of ex']
  have "errCounter sf = failures getOperations (lookups sf) \<and>
        (res = Inl (ConfirmationLookupFailedError ex') \<longleftrightarrow>
         errCounter sf = 101 \<and> getOperations (lookups sf - 1) = Rejects ex')"
    by (simp add: state_after_def)
  with r run_lookup_failed [of n getOperations requiredStatus ex] show ?thesis
    by simp
qed

text \<open>The theorem at a node that fails every lookup: the run stops at the 101st.\<close>

theorem lookup_failures_are_never_reset_witness:
  "awaitRequiredOperationStatus failing_node FINAL =
     (Inl (ConfirmationLookupFailedError ''timeout''),
      \<lparr>errCounter = 101, pendingCounter = 100, lookups = 101, waits = 200\<rparr>)"
  using lookup_failures_are_never_reset [of 100 failing_node FINAL "''timeout''"]
    failures_failing [of 100]
  by (simp add: failing_node_def status_of_simps)

text \<open>
  Claim C3, as stated, fails: an iteration whose lookup throws goes on to the comparison
  with \<^verbatim>\<open>status\<close> still \<open>NOT_FOUND\<close> and counts against the pending budget. After
  one failed lookup the run times out at its 1001st lookup, when only 1000 lookups have
  succeeded with another status than the required one.
\<close>

theorem pending_budget_counterexample:
  "awaitRequiredOperationStatus hiccup_node FINAL =
     (Inl ConfirmationTimeoutError,
      \<lparr>errCounter = 1, pendingCounter = 1001, lookups = 1001, waits = 1001\<rparr>) \<and>
   pending_polls hiccup_node FINAL 1001 = 1000"
proof -
  have f: "failures hiccup_node 1001 = 1"
    using failures_hiccup [of 1000] by simp
  have "\<forall>j<1001. status_of (hiccup_node j) \<noteq> FINAL"
    by (simp add: hiccup_node_def pool_node_def status_of_simps)
  with f have "awaitRequiredOperationStatus hiccup_node FINAL =
     (Inl ConfirmationTimeoutError,
      \<lparr>errCounter = failures hiccup_node 1001, pendingCounter = 1001, lookups = 1001,
       waits = 1000 + failures hiccup_node 1001\<rparr>)"
    by (intro run_timeout) simp_all
  moreover have "pending_polls hiccup_node FINAL 1001 = 1000"
    using pending_polls_hiccup [of 1000] by simp
  ultimately show ?thesis using f by simp
qed

text \<open>
  Claim C3, amended. The pending budget counts every iteration that reaches the
  comparison without the required status, whether its lookup succeeded or threw (then
  the status compared is \<open>NOT_FOUND\<close>): when none of the first 1001 iterations has the
  required status and at most 100 of their lookups throw, the run is aborted with the
  timeout error at its 1001st iteration.
\<close>

theorem pending_budget_counts_every_iteration:
  "failures getOperations 1001 \<le> 100 \<and>
   (\<forall>j<1001. status_of (getOperations j) \<noteq> requiredStatus) \<longrightarrow>
     awaitRequiredOperationStatus getOperations requiredStatus =
       (Inl ConfirmationTimeoutError,
        \<lparr>errCounter = failures getOperations 1001, pendingCounter = 1001, lookups = 1001,
         waits = 1000 + failures getOperations 1001\<rparr>)"
  using run_timeout [of getOperations requiredStatus] by blast

text \<open>The theorem at a node that always answers with the operation in its pool.\<close>

theorem pending_budget_counts_every_iteration_witness:
  "awaitRequiredOperationStatus pool_node FINAL =
     (Inl ConfirmationTimeoutError,
      \<lparr>errCounter = 0, pendingCounter = 1001, lookups = 1001, waits = 1000\<rparr>)"
  using pending_budget_counts_every_iteration [of pool_node FINAL] failures_pool [of 1001]
  by (simp add: pool_node_def status_of_simps)

text \<open>
  Claim C4. With the required status \<open>NOT_FOUND\<close>, an iteration whose lookup throws
  returns \<open>NOT_FOUND\<close> in that same iteration. Iteration \<open>n\<close> is reached exactly when
  \<open>n \<le> 1000\<close> and no earlier iteration had the status \<open>NOT_FOUND\<close>.
\<close>

theorem failed_lookup_returns_NOT_FOUND:
  "n \<le> 1000 \<and> (\<forall>j<n. status_of (getOperations j) \<noteq> NOT_FOUND) \<and>
   getOperations n = Rejects ex \<longrightarrow>
     awaitRequiredOperationStatus getOperations NOT_FOUND =
       (Inr NOT_FOUND, \<lparr>errCounter = 1, pendingCounter = n, lookups = n + 1, waits = n + 1\<rparr>)"
proof (intro impI, elim conjE)
  assume n: "n \<le> 1000" and before: "\<forall>j<n. status_of (getOperations j) \<noteq> NOT_FOUND"
    and rej: "getOperations n = Rejects ex"
  have f: "failures getOperations (Suc n) = 1"
    using no_failure_before [OF before] rej by simp
  have "status_of (getOperations n) = NOT_FOUND"
    using rej by (simp add: status_of_def)
  with n before f have "awaitRequiredOperationStatus getOperations NOT_FOUND =
         (Inr NOT_FOUND,
          \<lparr>errCounter = failures getOperations (Suc n), pendingCounter = n, lookups = n + 1,
           waits = n + failures getOperations (Suc n)\<rparr>)"
    by (intro run_returns) simp_all
  with f show "awaitRequiredOperationStatus getOperations NOT_FOUND =
       (Inr NOT_FOUND, \<lparr>errCounter = 1, pendingCounter = n, lookups = n + 1, waits = n + 1\<rparr>)"
    by simp
qed

text \<open>The theorem at a node whose third lookup is the first to fail.\<close>

theorem failed_lookup_returns_NOT_FOUND_witness:
  "awaitRequiredOperationStatus late_hiccup_node NOT_FOUND =
     (Inr NOT_FOUND, \<lparr>errCounter = 1, pendingCounter = 2, lookups = 3, waits = 3\<rparr>)"
proof -
  have "\<forall>j<2. status_of (late_hiccup_node j) \<noteq> NOT_FOUND"
    by (simp add: late_hiccup_node_def pool_node_def status_of_simps)
  with failed_lookup_returns_NOT_FOUND [of 2 late_hiccup_node "''timeout''"]
  show ?thesis
    by (simp add: late_hiccup_node_def)
qed


section \<open>The wallet, call by call\<close>

subsection \<open>Lookup\<close>

lemma lookup_found:
  "getWalletAccountByAddress members addr = Inr (Some found) \<Longrightarrow>
   found \<in> set members \<and>
   (\<exists>a b. address found = Some a \<and> addr = Some b \<and> toLowerCase a = toLowerCase b)"
  by (induction members) (auto split: option.splits if_splits)

subsection \<open>Additions append to the wallet and leave the base account alone\<close>

lemma addPrivateKeys_loop_appends:
  "addPrivateKeys_loop c members privateKeys acc = Inr res \<Longrightarrow> \<exists>new. res = acc @ new"
proof (induction privateKeys arbitrary: acc)
  case Nil
  then show ?case by simp
next
  case (Cons k privateKeys)
  from Cons.prems show ?case
    by (auto simp: Let_def split: option.splits sum.splits dest!: Cons.IH)
qed

lemma addAccounts_loop_appends:
  "addAccounts_loop c members accounts acc = Inr res \<Longrightarrow> \<exists>new. res = acc @ new"
proof (induction accounts arbitrary: acc)
  case Nil
  then show ?case by simp
next
  case (Cons a accounts)
  from Cons.prems show ?case
    by (auto split: option.splits sum.splits dest!: Cons.IH)
qed

lemma addPrivateKeysToWallet_state:
  "\<exists>new. snd (addPrivateKeysToWallet c privateKeys st) = st\<lparr>wallet := wallet st @ new\<rparr>"
proof (cases "fst (addPrivateKeysToWallet c privateKeys st)")
  case (Inl e)
  then have "snd (addPrivateKeysToWallet c privateKeys st) = st\<lparr>wallet := wallet st @ []\<rparr>"
    by (auto simp: addPrivateKeysToWallet_def split: if_splits sum.splits)
  then show ?thesis ..
next
  case (Inr res)
  then have "snd (addPrivateKeysToWallet c privateKeys st) = st\<lparr>wallet := wallet st @ res\<rparr>"
    by (auto simp: addPrivateKeysToWallet_def split: if_splits sum.splits)
  then show ?thesis ..
qed

lemma addAccountsToWallet_throws:
  "fst (addAccountsToWallet c accounts st) = Inl e \<Longrightarrow> snd (addAccountsToWallet c accounts st) = st"
  by (auto simp: addAccountsToWallet_def split: if_splits sum.splits)

lemma addAccountsToWallet_returns:
  "fst (addAccountsToWallet c accounts st) = Inr res \<Longrightarrow>
   snd (addAccountsToWallet c accounts st) = st\<lparr>wallet := wallet st @ res\<rparr>"
  by (auto simp: addAccountsToWallet_def split: if_splits sum.splits)

lemma addAccountsToWallet_state:
  "\<exists>new. snd (addAccountsToWallet c accounts st) = st\<lparr>wallet := wallet st @ new\<rparr>"
proof (cases "fst (addAccountsToWallet c accounts st)")
  case (Inl e)
  then have "snd (addAccountsToWallet c accounts st) = st\<lparr>wallet := wallet st @ []\<rparr>"
    by (simp add: addAccountsToWallet_throws)
  then show ?thesis ..
next
  case (Inr res)
  then show ?thesis
    by (auto dest: addAccountsToWallet_returns)
qed

lemma base_has_member_append:
  "base_has_member st \<Longrightarrow> base_has_member (st\<lparr>wallet := wallet st @ new\<rparr>)"
  by (auto simp: base_has_member_def split: option.splits)

subsection \<open>What one entry of addAccountsToWallet creates\<close>

lemma deriveAccount_created:
  "deriveAccount c account = Inr created \<Longrightarrow>
   resolvePrivateKey c account = Inr (privateKey created) \<and>
   randomEntropy created = randomEntropy account \<and>
   (\<exists>keyBytes publicKeyBytes.
      decode c (privateKey created) = Inr keyBytes \<and>
      getPublicKey c keyBytes = Some publicKeyBytes \<and>
      publicKey created = Some (base58Encode c publicKeyBytes) \<and>
      address created = Some (addressOfPublicKey c publicKeyBytes))"
  by (auto simp: deriveAccount_def Let_def split: if_splits sum.splits option.splits)

lemma deriveAccount_rejects:
  "\<not> truthy (randomEntropy account) \<and> \<not> truthy (privateKey account) \<Longrightarrow>
     deriveAccount c account = Inl MissingKeyMaterialError"
  "resolvePrivateKey c account = Inl e \<Longrightarrow> isl (deriveAccount c account)"
  "resolvePrivateKey c account = Inr key \<Longrightarrow> decode c key = Inl e \<Longrightarrow>
     isl (deriveAccount c account)"
  "deriveAccount c account = Inr created \<Longrightarrow> truthy (publicKey account) \<Longrightarrow>
     publicKey account = publicKey created"
  "deriveAccount c account = Inr created \<Longrightarrow> truthy (address account) \<Longrightarrow>
     address account = address created"
  by (auto simp: deriveAccount_def Let_def split: if_splits sum.splits option.splits)

lemma addAccounts_loop_rejects:
  "list_ex (\<lambda>account. isl (deriveAccount c account)) accounts \<Longrightarrow>
   isl (addAccounts_loop c members accounts acc)"
proof (induction accounts arbitrary: acc)
  case Nil
  then show ?case by simp
next
  case (Cons a accounts)
  show ?case
  proof (cases "deriveAccount c a")
    case (Inl e)
    then show ?thesis by simp
  next
    case (Inr created)
    with Cons.prems have "list_ex (\<lambda>account. isl (deriveAccount c account)) accounts"
      by simp
    from Cons.IH [OF this] Inr show ?thesis
      by (auto split: sum.splits option.splits)
  qed
qed

lemma deriveAccount_stores_resolved_key:
  "deriveAccount c entry = Inr created \<Longrightarrow> stores_resolved_key c entry created"
  by (auto simp: deriveAccount_def resolvePrivateKey_def stores_resolved_key_def Let_def
           split: if_splits sum.splits option.splits)

lemma addAccounts_loop_entries:
  "addAccounts_loop c members accounts acc = Inr res \<Longrightarrow>
   \<exists>new. res = acc @ new \<and>
     list_all2 (\<lambda>entry created. deriveAccount c entry = Inr created)
       (entries_added c members accounts) new"
proof (induction accounts arbitrary: acc)
  case Nil
  then show ?case by (simp add: entries_added_def)
next
  case (Cons entry accounts)
  from Cons.prems obtain created where d: "deriveAccount c entry = Inr created"
    by (cases "deriveAccount c entry") auto
  from Cons.prems d obtain looked
    where l: "getWalletAccountByAddress members (address created) = Inr looked"
    by (cases "getWalletAccountByAddress members (address created)") auto
  show ?case
  proof (cases looked)
    case (Some found)
    with Cons.prems d l have "addAccounts_loop c members accounts acc = Inr res"
      by simp
    from Cons.IH [OF this] d l Some show ?thesis
      by (simp add: entries_added_def)
  next
    case None
    with Cons.prems d l have "addAccounts_loop c members accounts (acc @ [created]) = Inr res"
      by simp
    from Cons.IH [OF this] obtain new where
      "res = (acc @ [created]) @ new" and
      "list_all2 (\<lambda>entry created. deriveAccount c entry = Inr created)
         (entries_added c members accounts) new"
      by blast
    with d l None have "res = acc @ (created # new) \<and>
      list_all2 (\<lambda>entry created. deriveAccount c entry = Inr created)
        (entries_added c members (entry # accounts)) (created # new)"
      by (simp add: entries_added_def)
    then show ?thesis by blast
  qed
qed

subsection \<open>The base account\<close>

lemma setBaseAccount_present:
  "getWalletAccountByAddress (wallet st) (address account) = Inr (Some found) \<Longrightarrow>
   setBaseAccount c account st = (Inr (), st\<lparr>baseAccount := Some account\<rparr>)"
  by (simp add: setBaseAccount_def)

lemma setBaseAccount_base_has_member:
  assumes "base_has_member st"
  shows "base_has_member (snd (setBaseAccount c account st))"
proof (cases "getWalletAccountByAddress (wallet st) (address account)")
  case (Inl e)
  with assms show ?thesis by (simp add: setBaseAccount_def)
next
  case (Inr looked)
  show ?thesis
  proof (cases looked)
    case (Some found)
    from lookup_found [of "wallet st" "address account" found] Inr Some
    have "found \<in> set (wallet st)" and "same_address found account"
      by (auto simp: same_address_def)
    then have "list_ex (\<lambda>member. same_address member account) (wallet st)"
      by (auto simp: list_ex_iff)
    with Inr Some show ?thesis
      by (simp add: setBaseAccount_def base_has_member_def)
  next
    case None
    show ?thesis
    proof (cases "addAccounts_loop c (wallet st) [account] []")
      case (Inl e)
      with Inr None assms show ?thesis
        by (simp add: setBaseAccount_def addAccountsToWallet_def MAX_WALLET_ACCOUNTS_def)
    next
      case res: (Inr baseAccountAdded)
      have st': "setBaseAccount c account st =
        (Inr (), \<lparr>wallet = wallet st @ baseAccountAdded,
                  baseAccount = (case baseAccountAdded of [] \<Rightarrow> None
                                 | added # others \<Rightarrow> Some added)\<rparr>)"
        using Inr None res
        by (simp add: setBaseAccount_def addAccountsToWallet_def MAX_WALLET_ACCOUNTS_def)
      show ?thesis
      proof (cases baseAccountAdded)
        case Nil
        with st' show ?thesis by (simp add: base_has_member_def)
      next
        case (Cons added others)
        with res have "deriveAccount c account = Inr added"
          by (auto split: sum.splits option.splits)
        from deriveAccount_created [OF this] have "same_address added added"
          by (auto simp: same_address_def)
        with st' Cons show ?thesis
          by (simp add: base_has_member_def)
      qed
    qed
  qed
qed

lemma call_base_has_member:
  "base_has_member st \<Longrightarrow> \<not> removes x \<Longrightarrow> base_has_member (call c x st)"
proof (cases x)
  case (SetBaseAccount account)
  assume "base_has_member st"
  with SetBaseAccount show ?thesis
    by (simp add: setBaseAccount_base_has_member)
next
  case (AddPrivateKeysToWallet privateKeys)
  assume "base_has_member st"
  with AddPrivateKeysToWallet addPrivateKeysToWallet_state [of c privateKeys st]
  show ?thesis
    by (auto simp del: surjective update_convs intro: base_has_member_append)
next
  case (AddAccountsToWallet accounts)
  assume "base_has_member st"
  with AddAccountsToWallet addAccountsToWallet_state [of c accounts st]
  show ?thesis
    by (auto simp del: surjective update_convs intro: base_has_member_append)
next
  case (RemoveAddressesFromWallet addresses)
  assume "\<not> removes x"
  with RemoveAddressesFromWallet show ?thesis by simp
next
  case CleanWallet
  assume "\<not> removes x"
  with CleanWallet show ?thesis by simp
qed

lemma calls_base_has_member:
  "base_has_member st \<Longrightarrow> list_all (\<lambda>x. \<not> removes x) xs \<Longrightarrow> base_has_member (calls c xs st)"
  by (induction xs arbitrary: st) (simp_all add: call_base_has_member)

subsection \<open>What addPrivateKeysToWallet does skip\<close>

text \<open>
  Every account that \<^verbatim>\<open>addPrivateKeysToWallet\<close> creates has an address that the
  lookup did not find in the wallet as it was before the call; in particular a second
  call with the same keys creates nothing that the first call added.
\<close>

lemma addPrivateKeys_loop_new:
  "addPrivateKeys_loop c members privateKeys acc = Inr res \<Longrightarrow>
   \<forall>a\<in>set acc. getWalletAccountByAddress members (address a) = Inr None \<Longrightarrow>
   \<forall>a\<in>set res. getWalletAccountByAddress members (address a) = Inr None"
proof (induction privateKeys arbitrary: acc)
  case Nil
  then show ?case by simp
next
  case (Cons k privateKeys)
  from Cons.prems show ?case
    by (auto simp: Let_def split: option.splits sum.splits dest!: Cons.IH)
qed

lemma addPrivateKeysToWallet_skips_members:
  "addPrivateKeysToWallet c privateKeys st = (Inr created, st') \<Longrightarrow>
   st' = st\<lparr>wallet := wallet st @ created\<rparr> \<and>
   (\<forall>a\<in>set created. getWalletAccountByAddress (wallet st) (address a) = Inr None)"
  by (auto simp: addPrivateKeysToWallet_def split: if_splits sum.splits
           dest: addPrivateKeys_loop_new)

subsection \<open>The stand-in primitives on the inputs used below\<close>

lemma toy_key:
  "base58Decode toy_crypto ''2k'' = Some [50, 107]"
  "getPublicKey toy_crypto [50, 107] = Some [50, 107, 50, 107]"
  "base58Encode toy_crypto [50, 107, 50, 107] = ''2k2k''"
  "addressOfPublicKey toy_crypto [50, 107, 50, 107] = ''A1k2k2''"
  by code_simp+


section \<open>Claims about the wallet\<close>

text \<open>
  Claim C5 fails on the code: the membership test of the loop reads the wallet as it
  was before the call, and the accounts collected so far are not consulted. A key
  submitted twice in one call, whose address is not yet in the wallet, is added twice.
\<close>

theorem addPrivateKeysToWallet_same_key_twice:
  "base58Decode c key = Some keyBytes \<and> getPublicKey c keyBytes = Some publicKeyBytes \<and>
   getWalletAccountByAddress (wallet st) (Some (addressOfPublicKey c publicKeyBytes)) = Inr None
   \<longrightarrow>
     addPrivateKeysToWallet c [key, key] st =
       (let created =
              \<lparr>address = Some (addressOfPublicKey c publicKeyBytes),
               publicKey = Some (base58Encode c publicKeyBytes),
               privateKey = Some key,
               randomEntropy = None\<rparr>
        in (Inr [created, created], st\<lparr>wallet := wallet st @ [created, created]\<rparr>))"
  by (simp add: addPrivateKeysToWallet_def MAX_WALLET_ACCOUNTS_def Let_def)

theorem addPrivateKeysToWallet_same_key_twice_witness:
  "addPrivateKeysToWallet toy_crypto [''2k'', ''2k''] new_wallet =
     (Inr [\<lparr>address = Some ''A1k2k2'', publicKey = Some ''2k2k'', privateKey = Some ''2k'',
            randomEntropy = None\<rparr>,
           \<lparr>address = Some ''A1k2k2'', publicKey = Some ''2k2k'', privateKey = Some ''2k'',
            randomEntropy = None\<rparr>],
      \<lparr>wallet =
         [\<lparr>address = Some ''A1k2k2'', publicKey = Some ''2k2k'', privateKey = Some ''2k'',
           randomEntropy = None\<rparr>,
          \<lparr>address = Some ''A1k2k2'', publicKey = Some ''2k2k'', privateKey = Some ''2k'',
           randomEntropy = None\<rparr>],
       baseAccount = None\<rparr>)"
  using addPrivateKeysToWallet_same_key_twice
          [of toy_crypto "''2k''" "[50, 107]" "[50, 107, 50, 107]" new_wallet]
  by (simp add: toy_key new_wallet_def Let_def)

text \<open>
  Claim C6, as stated, fails twice. \<^verbatim>\<open>setBaseAccount\<close> for an address that is already
  present designates the object passed in, not the stored member: after a key is added,
  an account that carries only the address, in another case, becomes the base account
  and is no member of the wallet. And \<^verbatim>\<open>cleanWallet\<close> empties the wallet and leaves
  the base account set.
\<close>

theorem base_account_counterexample:
  "baseAccount
     (calls toy_crypto
        [AddPrivateKeysToWallet [''2k''],
         SetBaseAccount \<lparr>address = Some ''a1K2K2'', publicKey = None, privateKey = None,
                         randomEntropy = None\<rparr>]
        new_wallet) =
     Some \<lparr>address = Some ''a1K2K2'', publicKey = None, privateKey = None,
           randomEntropy = None\<rparr> \<and>
   wallet
     (calls toy_crypto
        [AddPrivateKeysToWallet [''2k''],
         SetBaseAccount \<lparr>address = Some ''a1K2K2'', publicKey = None, privateKey = None,
                         randomEntropy = None\<rparr>]
        new_wallet) =
     [\<lparr>address = Some ''A1k2k2'', publicKey = Some ''2k2k'', privateKey = Some ''2k'',
       randomEntropy = None\<rparr>] \<and>
   baseAccount
     (calls toy_crypto
        [SetBaseAccount \<lparr>address = None, publicKey = None, privateKey = Some ''2k'',
                         randomEntropy = None\<rparr>,
         CleanWallet]
        new_wallet) =
     Some \<lparr>address = Some ''A1k2k2'', publicKey = Some ''2k2k'', privateKey = Some ''2k'',
           randomEntropy = None\<rparr> \<and>
   wallet
     (calls toy_crypto
        [SetBaseAccount \<lparr>address = None, publicKey = None, privateKey = Some ''2k'',
                         randomEntropy = None\<rparr>,
         CleanWallet]
        new_wallet) = []"
  by code_simp

text \<open>
  Claim C6, amended. After every sequence of \<^verbatim>\<open>setBaseAccount\<close> calls and account
  additions (no removal, no \<^verbatim>\<open>cleanWallet\<close>), a base account that is set has the
  address of some member of the wallet, under the case-insensitive comparison of the
  lookup. \<^verbatim>\<open>setBaseAccount\<close> for an address already present designates the account
  passed in, as it is.
\<close>

theorem base_account_shares_address_with_member:
  "(base_has_member st \<and> list_all (\<lambda>x. \<not> removes x) xs \<longrightarrow>
      base_has_member (calls c xs st)) \<and>
   (getWalletAccountByAddress (wallet st) (address account) = Inr (Some found) \<longrightarrow>
      setBaseAccount c account st = (Inr (), st\<lparr>baseAccount := Some account\<rparr>))"
  using calls_base_has_member [of st xs c] setBaseAccount_present [of st account found c]
  by blast

theorem base_account_shares_address_with_member_witness:
  "base_has_member new_wallet \<and>
   base_has_member
     (calls toy_crypto
        [AddPrivateKeysToWallet [''2k''],
         SetBaseAccount \<lparr>address = Some ''a1K2K2'', publicKey = None, privateKey = None,
                         randomEntropy = None\<rparr>,
         AddAccountsToWallet [\<lparr>address = None, publicKey = None, privateKey = None,
                               randomEntropy = Some ''3e''\<rparr>]]
        new_wallet) \<and>
   setBaseAccount toy_crypto
     \<lparr>address = Some ''a1K2K2'', publicKey = None, privateKey = None, randomEntropy = None\<rparr>
     \<lparr>wallet = [\<lparr>address = Some ''A1k2k2'', publicKey = Some ''2k2k'',
                 privateKey = Some ''2k'', randomEntropy = None\<rparr>],
      baseAccount = None\<rparr> =
     (Inr (),
      \<lparr>wallet = [\<lparr>address = Some ''A1k2k2'', publicKey = Some ''2k2k'',
                  privateKey = Some ''2k'', randomEntropy = None\<rparr>],
       baseAccount = Some \<lparr>address = Some ''a1K2K2'', publicKey = None, privateKey = None,
                           randomEntropy = None\<rparr>\<rparr>)"
proof -
  have found: "getWalletAccountByAddress
      [\<lparr>address = Some ''A1k2k2'', publicKey = Some ''2k2k'', privateKey = Some ''2k'',
        randomEntropy = None\<rparr>]
      (Some ''a1K2K2'') =
      Inr (Some \<lparr>address = Some ''A1k2k2'', publicKey = Some ''2k2k'',
                 privateKey = Some ''2k'', randomEntropy = None\<rparr>)"
    by code_simp
  have start: "base_has_member new_wallet"
    by (simp add: base_has_member_def new_wallet_def)
  from start base_account_shares_address_with_member
    [of new_wallet
        "[AddPrivateKeysToWallet [''2k''],
          SetBaseAccount \<lparr>address = Some ''a1K2K2'', publicKey = None, privateKey = None,
                          randomEntropy = None\<rparr>,
          AddAccountsToWallet [\<lparr>address = None, publicKey = None, privateKey = None,
                                randomEntropy = Some ''3e''\<rparr>]]"
        toy_crypto]
  have "base_has_member
     (calls toy_crypto
        [AddPrivateKeysToWallet [''2k''],
         SetBaseAccount \<lparr>address = Some ''a1K2K2'', publicKey = None, privateKey = None,
                         randomEntropy = None\<rparr>,
         AddAccountsToWallet [\<lparr>address = None, publicKey = None, privateKey = None,
                               randomEntropy = Some ''3e''\<rparr>]]
        new_wallet)"
    by simp
  moreover from found base_account_shares_address_with_member
    [of "\<lparr>wallet = [\<lparr>address = Some ''A1k2k2'', publicKey = Some ''2k2k'',
                 privateKey = Some ''2k'', randomEntropy = None\<rparr>],
        baseAccount = None\<rparr>" "[]" toy_crypto
        "\<lparr>address = Some ''a1K2K2'', publicKey = None, privateKey = None,
          randomEntropy = None\<rparr>"]
  have "setBaseAccount toy_crypto
     \<lparr>address = Some ''a1K2K2'', publicKey = None, privateKey = None, randomEntropy = None\<rparr>
     \<lparr>wallet = [\<lparr>address = Some ''A1k2k2'', publicKey = Some ''2k2k'',
                 privateKey = Some ''2k'', randomEntropy = None\<rparr>],
      baseAccount = None\<rparr> =
     (Inr (),
      \<lparr>wallet = [\<lparr>address = Some ''A1k2k2'', publicKey = Some ''2k2k'',
                  privateKey = Some ''2k'', randomEntropy = None\<rparr>],
       baseAccount = Some \<lparr>address = Some ''a1K2K2'', publicKey = None, privateKey = None,
                           randomEntropy = None\<rparr>\<rparr>)"
    by simp
  ultimately show ?thesis using start by simp
qed

text \<open>
  Claim C7, as stated, fails: when an entry supplies both a random entropy and a private
  key, the private key derived from the entropy is used and stored, and the supplied
  private key is ignored.
\<close>

theorem supplied_private_key_counterexample:
  "addAccountsToWallet toy_crypto
     [\<lparr>address = None, publicKey = None, privateKey = Some ''2k'',
       randomEntropy = Some ''3e''\<rparr>]
     new_wallet =
     (Inr [\<lparr>address = Some ''A13e3e'', publicKey = Some ''e3e3'', privateKey = Some ''e3'',
            randomEntropy = Some ''3e''\<rparr>],
      \<lparr>wallet =
         [\<lparr>address = Some ''A13e3e'', publicKey = Some ''e3e3'', privateKey = Some ''e3'',
           randomEntropy = Some ''3e''\<rparr>],
       baseAccount = None\<rparr>) \<and>
   resolvePrivateKey toy_crypto
     \<lparr>address = None, publicKey = None, privateKey = Some ''2k'',
      randomEntropy = Some ''3e''\<rparr> =
     Inr (Some ''e3'')"
  by code_simp

text \<open>
  Claim C7, amended. For every batch passed to \<^verbatim>\<open>addAccountsToWallet\<close> and every
  account the call creates, in the order of the entries: the private key stored in the
  account is the supplied private key when the entry supplies no random entropy; when the
  entry supplies a random entropy, it is the key derived from the entropy, whether or not
  a private key is supplied as well (the supplied key is used only if the encoding of the
  derived key is the empty string). The stored public key and address are derived from
  the stored private key.
\<close>

theorem created_accounts_store_resolved_key:
  "addAccountsToWallet c accounts st = (Inr created, st') \<longrightarrow>
     st' = st\<lparr>wallet := wallet st @ created\<rparr> \<and>
     list_all2
       (\<lambda>entry account.
          deriveAccount c entry = Inr account \<and> stores_resolved_key c entry account)
       (entries_added c (wallet st) accounts) created"
proof
  assume a: "addAccountsToWallet c accounts st = (Inr created, st')"
  then have loop: "addAccounts_loop c (wallet st) accounts [] = Inr created"
    and st': "st' = st\<lparr>wallet := wallet st @ created\<rparr>"
    by (auto simp: addAccountsToWallet_def split: if_splits sum.splits)
  from addAccounts_loop_entries [OF loop]
  have "list_all2 (\<lambda>entry account. deriveAccount c entry = Inr account)
          (entries_added c (wallet st) accounts) created"
    by simp
  then have "list_all2
       (\<lambda>entry account.
          deriveAccount c entry = Inr account \<and> stores_resolved_key c entry account)
       (entries_added c (wallet st) accounts) created"
    by (rule list_all2_mono) (simp add: deriveAccount_stores_resolved_key)
  with st' show "st' = st\<lparr>wallet := wallet st @ created\<rparr> \<and>
     list_all2
       (\<lambda>entry account.
          deriveAccount c entry = Inr account \<and> stores_resolved_key c entry account)
       (entries_added c (wallet st) accounts) created"
    by simp
qed

text \<open>
  The theorem at a batch of an entry with a private key only, and an entry with a random
  entropy and a private key.
\<close>

theorem created_accounts_store_resolved_key_witness:
  "addAccountsToWallet toy_crypto
     [\<lparr>address = None, publicKey = None, privateKey = Some ''2k'', randomEntropy = None\<rparr>,
      \<lparr>address = None, publicKey = None, privateKey = Some ''2k'',
       randomEntropy = Some ''3e''\<rparr>]
     new_wallet =
     (Inr [\<lparr>address = Some ''A1k2k2'', publicKey = Some ''2k2k'', privateKey = Some ''2k'',
            randomEntropy = None\<rparr>,
           \<lparr>address = Some ''A13e3e'', publicKey = Some ''e3e3'', privateKey = Some ''e3'',
            randomEntropy = Some ''3e''\<rparr>],
      \<lparr>wallet =
         [\<lparr>address = Some ''A1k2k2'', publicKey = Some ''2k2k'', privateKey = Some ''2k'',
           randomEntropy = None\<rparr>,
          \<lparr>address = Some ''A13e3e'', publicKey = Some ''e3e3'', privateKey = Some ''e3'',
           randomEntropy = Some ''3e''\<rparr>],
       baseAccount = None\<rparr>) \<and>
   list_all2
     (\<lambda>entry account.
        deriveAccount toy_crypto entry = Inr account \<and>
        stores_resolved_key toy_crypto entry account)
     [\<lparr>address = None, publicKey = None, privateKey = Some ''2k'', randomEntropy = None\<rparr>,
      \<lparr>address = None, publicKey = None, privateKey = Some ''2k'',
       randomEntropy = Some ''3e''\<rparr>]
     [\<lparr>address = Some ''A1k2k2'', publicKey = Some ''2k2k'', privateKey = Some ''2k'',
       randomEntropy = None\<rparr>,
      \<lparr>address = Some ''A13e3e'', publicKey = Some ''e3e3'', privateKey = Some ''e3'',
       randomEntropy = Some ''3e''\<rparr>]"
proof -
  have added: "addAccountsToWallet toy_crypto
     [\<lparr>address = None, publicKey = None, privateKey = Some ''2k'', randomEntropy = None\<rparr>,
      \<lparr>address = None, publicKey = None, privateKey = Some ''2k'',
       randomEntropy = Some ''3e''\<rparr>]
     new_wallet =
     (Inr [\<lparr>address = Some ''A1k2k2'', publicKey = Some ''2k2k'', privateKey = Some ''2k'',
            randomEntropy = None\<rparr>,
           \<lparr>address = Some ''A13e3e'', publicKey = Some ''e3e3'', privateKey = Some ''e3'',
            randomEntropy = Some ''3e''\<rparr>],
      \<lparr>wallet =
         [\<lparr>address = Some ''A1k2k2'', publicKey = Some ''2k2k'', privateKey = Some ''2k'',
           randomEntropy = None\<rparr>,
          \<lparr>address = Some ''A13e3e'', publicKey = Some ''e3e3'', privateKey = Some ''e3'',
           randomEntropy = Some ''3e''\<rparr>],
       baseAccount = None\<rparr>)"
    by code_simp
  have entries: "entries_added toy_crypto (wallet new_wallet)
     [\<lparr>address = None, publicKey = None, privateKey = Some ''2k'', randomEntropy = None\<rparr>,
      \<lparr>address = None, publicKey = None, privateKey = Some ''2k'',
       randomEntropy = Some ''3e''\<rparr>] =
     [\<lparr>address = None, publicKey = None, privateKey = Some ''2k'', randomEntropy = None\<rparr>,
      \<lparr>address = None, publicKey = None, privateKey = Some ''2k'',
       randomEntropy = Some ''3e''\<rparr>]"
    by code_simp
  from created_accounts_store_resolved_key
    [of toy_crypto
        "[\<lparr>address = None, publicKey = None, privateKey = Some ''2k'', randomEntropy = None\<rparr>,
          \<lparr>address = None, publicKey = None, privateKey = Some ''2k'',
           randomEntropy = Some ''3e''\<rparr>]"
        new_wallet
        "[\<lparr>address = Some ''A1k2k2'', publicKey = Some ''2k2k'', privateKey = Some ''2k'',
           randomEntropy = None\<rparr>,
          \<lparr>address = Some ''A13e3e'', publicKey = Some ''e3e3'', privateKey = Some ''e3'',
           randomEntropy = Some ''3e''\<rparr>]"
        "\<lparr>wallet =
           [\<lparr>address = Some ''A1k2k2'', publicKey = Some ''2k2k'', privateKey = Some ''2k'',
             randomEntropy = None\<rparr>,
            \<lparr>address = Some ''A13e3e'', publicKey = Some ''e3e3'', privateKey = Some ''e3'',
             randomEntropy = Some ''3e''\<rparr>],
          baseAccount = None\<rparr>"]
    added
  have "list_all2
     (\<lambda>entry account.
        deriveAccount toy_crypto entry = Inr account \<and>
        stores_resolved_key toy_crypto entry account)
     (entries_added toy_crypto (wallet new_wallet)
        [\<lparr>address = None, publicKey = None, privateKey = Some ''2k'', randomEntropy = None\<rparr>,
         \<lparr>address = None, publicKey = None, privateKey = Some ''2k'',
          randomEntropy = Some ''3e''\<rparr>])
     [\<lparr>address = Some ''A1k2k2'', publicKey = Some ''2k2k'', privateKey = Some ''2k'',
       randomEntropy = None\<rparr>,
      \<lparr>address = Some ''A13e3e'', publicKey = Some ''e3e3'', privateKey = Some ''e3'',
       randomEntropy = Some ''3e''\<rparr>]"
    by blast
  with entries added show ?thesis
    by (simp only:)
qed




text \<open>
  Claim C9. A list of more than 256 private keys makes \<^verbatim>\<open>addPrivateKeysToWallet\<close>
  fail with the too-many-accounts error, whatever the keys are and whatever the
  primitives would do with them, and the state of the wallet is the one before the call.
\<close>

theorem too_many_private_keys:
  "MAX_WALLET_ACCOUNTS = 256 \<and>
   (length privateKeys > 256 \<longrightarrow>
      addPrivateKeysToWallet c privateKeys st = (Inl TooManyAccountsError, st))"
  by (simp add: addPrivateKeysToWallet_def MAX_WALLET_ACCOUNTS_def)

text \<open>
  The theorem at 257 keys that are not base-58 text: the decoder, which would reject the
  first of them, is not reached.
\<close>

theorem too_many_private_keys_witness:
  "length (replicate 257 ''0'') > 256 \<and>
   base58Decode toy_crypto ''0'' = None \<and>
   addPrivateKeysToWallet toy_crypto (replicate 257 ''0'') new_wallet =
     (Inl TooManyAccountsError, new_wallet)"
proof -
  have "base58Decode toy_crypto ''0'' = None"
    by code_simp
  with too_many_private_keys [of "replicate 257 ''0''" toy_crypto new_wallet]
  show ?thesis by simp
qed

text \<open>
  Claim C10. If the checks of \<^verbatim>\<open>addAccountsToWallet\<close> reject any entry of the batch
  (\<open>deriveAccount\<close> fails on it: no key material, a string the decoder rejects, a
  supplied public key or address other than the derived one; see
  \<open>deriveAccount_rejects\<close>), the call throws and the state of the wallet is the one
  before the call, so that no entry of the batch has been added.
\<close>

theorem rejected_batch_adds_nothing:
  "list_ex (\<lambda>account. isl (deriveAccount c account)) accounts \<longrightarrow>
     isl (fst (addAccountsToWallet c accounts st)) \<and>
     snd (addAccountsToWallet c accounts st) = st"
proof
  assume "list_ex (\<lambda>account. isl (deriveAccount c account)) accounts"
  then have "isl (addAccounts_loop c (wallet st) accounts [])"
    by (rule addAccounts_loop_rejects)
  then have "isl (fst (addAccountsToWallet c accounts st))"
    by (auto simp: addAccountsToWallet_def split: sum.splits)
  moreover from this obtain e where "fst (addAccountsToWallet c accounts st) = Inl e"
    by (cases "fst (addAccountsToWallet c accounts st)") auto
  then have "snd (addAccountsToWallet c accounts st) = st"
    by (rule addAccountsToWallet_throws)
  ultimately show "isl (fst (addAccountsToWallet c accounts st)) \<and>
     snd (addAccountsToWallet c accounts st) = st"
    by simp
qed

text \<open>
  The theorem at a batch of a valid entry, an entry whose public key is not the derived
  one, and an entry without key material, submitted to a wallet that holds one account.
\<close>

theorem rejected_batch_adds_nothing_witness:
  "deriveAccount toy_crypto
     \<lparr>address = None, publicKey = None, privateKey = Some ''2k'', randomEntropy = None\<rparr> =
     Inr \<lparr>address = Some ''A1k2k2'', publicKey = Some ''2k2k'', privateKey = Some ''2k'',
          randomEntropy = None\<rparr> \<and>
   isl (fst (addAccountsToWallet toy_crypto
     [\<lparr>address = None, publicKey = None, privateKey = Some ''2k'', randomEntropy = None\<rparr>,
      \<lparr>address = None, publicKey = Some ''zz'', privateKey = Some ''3e'',
       randomEntropy = None\<rparr>,
      \<lparr>address = None, publicKey = None, privateKey = None, randomEntropy = None\<rparr>]
     \<lparr>wallet = [\<lparr>address = Some ''A13e3e'', publicKey = Some ''e3e3'',
                 privateKey = Some ''e3'', randomEntropy = Some ''3e''\<rparr>],
      baseAccount = None\<rparr>)) \<and>
   snd (addAccountsToWallet toy_crypto
     [\<lparr>address = None, publicKey = None, privateKey = Some ''2k'', randomEntropy = None\<rparr>,
      \<lparr>address = None, publicKey = Some ''zz'', privateKey = Some ''3e'',
       randomEntropy = None\<rparr>,
      \<lparr>address = None, publicKey = None, privateKey = None, randomEntropy = None\<rparr>]
     \<lparr>wallet = [\<lparr>address = Some ''A13e3e'', publicKey = Some ''e3e3'',
                 privateKey = Some ''e3'', randomEntropy = Some ''3e''\<rparr>],
      baseAccount = None\<rparr>) =
     \<lparr>wallet = [\<lparr>address = Some ''A13e3e'', publicKey = Some ''e3e3'',
                 privateKey = Some ''e3'', randomEntropy = Some ''3e''\<rparr>],
      baseAccount = None\<rparr>"
proof -
  have valid: "deriveAccount toy_crypto
     \<lparr>address = None, publicKey = None, privateKey = Some ''2k'', randomEntropy = None\<rparr> =
     Inr \<lparr>address = Some ''A1k2k2'', publicKey = Some ''2k2k'', privateKey = Some ''2k'',
          randomEntropy = None\<rparr>"
    by code_simp
  have rejected: "list_ex (\<lambda>account. isl (deriveAccount toy_crypto account))
     [\<lparr>address = None, publicKey = None, privateKey = Some ''2k'', randomEntropy = None\<rparr>,
      \<lparr>address = None, publicKey = Some ''zz'', privateKey = Some ''3e'',
       randomEntropy = None\<rparr>,
      \<lparr>address = None, publicKey = None, privateKey = None, randomEntropy = None\<rparr>]"
    by code_simp
  from rejected rejected_batch_adds_nothing
    [of toy_crypto
        "[\<lparr>address = None, publicKey = None, privateKey = Some ''2k'', randomEntropy = None\<rparr>,
          \<lparr>address = None, publicKey = Some ''zz'', privateKey = Some ''3e'',
           randomEntropy = None\<rparr>,
          \<lparr>address = None, publicKey = None, privateKey = None, randomEntropy = None\<rparr>]"
        "\<lparr>wallet = [\<lparr>address = Some ''A13e3e'', publicKey = Some ''e3e3'',
                     privateKey = Some ''e3'', randomEntropy = Some ''3e''\<rparr>],
          baseAccount = None\<rparr>"]
    valid
  show ?thesis by blast
qed

end
